theory Spec2Isabelle
  imports Complex_Main
begin

section \<open>Dataset utilities of \<open>grelu.data.utils\<close>\<close>

text \<open>
  A shallow embedding of the four helpers of \<open>src/grelu/data/utils.py\<close>.
  Python's unbounded integers are \<open>int\<close>, its strings are \<open>string\<close>, and every
  exception the code can raise is a value of \<open>py_error\<close> on the left of a sum.
  A leading underscore is not an Isabelle identifier, so \<open>_tile_positions\<close>,
  \<open>_create_task_data\<close> and \<open>_check_multiclass\<close> appear without it.
\<close>

datatype py_error =
  ValueError | NameError | AssertionError | IndexError | OverflowError | ZeroDivisionError

subsection \<open>Python's \<open>range\<close>\<close>

text \<open>
  \<open>range(start, stop, step)\<close> counts upwards while below \<open>stop\<close> for a positive
  step, downwards while above \<open>stop\<close> for a negative step, and raises
  \<open>ValueError\<close> for a zero step.
\<close>

function range_up :: "int \<Rightarrow> int \<Rightarrow> int \<Rightarrow> int list" where
  "range_up x stop step =
     (if 0 < step \<and> x < stop then x # range_up (x + step) stop step else [])"
  by pat_completeness auto
termination
  by (relation "measure (\<lambda>(x, stop, step). nat (stop - x))") auto

function range_down :: "int \<Rightarrow> int \<Rightarrow> int \<Rightarrow> int list" where
  "range_down x stop step =
     (if step < 0 \<and> stop < x then x # range_down (x + step) stop step else [])"
  by pat_completeness auto
termination
  by (relation "measure (\<lambda>(x, stop, step). nat (x - stop))") auto

declare range_up.simps [simp del] range_down.simps [simp del]

definition py_range :: "int \<Rightarrow> int \<Rightarrow> int \<Rightarrow> py_error + int list" where
  "py_range start stop step =
     (if step = 0 then Inl ValueError
      else if 0 < step then Inr (range_up start stop step)
      else Inr (range_down start stop step))"

subsection \<open>Python floats\<close>

text \<open>
  A Python float is an IEEE 754 binary64 value. The finite ones are rational numbers,
  so a float is a rational or one of the two infinities; a NaN cannot arise from the
  operations used here, and the sign of a zero is not observable through \<open>int\<close>.

  Rounding to nearest, ties to even: a double carries 53 significant bits, so the
  spacing of the doubles around \<open>x\<close> is \<open>2 powi e\<close> for the least \<open>e\<close> with
  \<open>\<bar>x\<bar> < 2 powi (e + 53)\<close>, and never less than \<open>2 powi (- 1074)\<close>, the spacing of
  the subnormal numbers. \<open>x\<close> is rounded to the nearest multiple of that spacing; a
  result of magnitude \<open>2 ^ 1024\<close> or more is beyond the largest double and becomes an
  infinity.
\<close>

datatype py_float = Finite rat | PosInf | NegInf

definition round_half_even :: "rat \<Rightarrow> int" where
  "round_half_even x =
     (let f = \<lfloor>x\<rfloor>; d = x - of_int f
      in if d < 1 / 2 then f
         else if 1 / 2 < d then f + 1
         else if even f then f else f + 1)"

function ulp_exp :: "rat \<Rightarrow> int \<Rightarrow> int" where
  "ulp_exp x e =
     (if \<bar>x\<bar> < 2 powi (e + 53) \<or> 971 \<le> e then e else ulp_exp x (e + 1))"
  by pat_completeness auto
termination
  by (relation "measure (\<lambda>(x, e). nat (971 - e))") auto

declare ulp_exp.simps [simp del]

definition double_of_rat :: "rat \<Rightarrow> py_float" where
  "double_of_rat x =
     (let e = ulp_exp x (- 1074);
          r = of_int (round_half_even (x / 2 powi e)) * 2 powi e
      in if 2 ^ 1024 \<le> \<bar>r\<bar> then (if 0 < x then PosInf else NegInf)
         else Finite r)"

text \<open>
  \<open>a / b\<close> on two integers is the exact quotient, correctly rounded; it raises
  \<open>OverflowError\<close> when the rounded quotient is too large for a float, and
  \<open>ZeroDivisionError\<close> for a zero divisor.
\<close>

definition py_truediv :: "int \<Rightarrow> int \<Rightarrow> py_error + rat" where
  "py_truediv a b =
     (if b = 0 then Inl ZeroDivisionError
      else case double_of_rat (of_int a / of_int b) of
             Finite r \<Rightarrow> Inr r
           | PosInf \<Rightarrow> Inl OverflowError
           | NegInf \<Rightarrow> Inl OverflowError)"

text \<open>
  \<open>x - y\<close> on two finite floats is the exact difference, rounded; it does not raise
  but yields an infinity on overflow. \<open>np.floor\<close> keeps an infinity, and \<open>int\<close>
  truncates a finite float and raises \<open>OverflowError\<close> on an infinity.
\<close>

definition float_sub :: "rat \<Rightarrow> rat \<Rightarrow> py_float" where
  "float_sub x y = double_of_rat (x - y)"

fun np_floor :: "py_float \<Rightarrow> py_float" where
  "np_floor (Finite r) = Finite (of_int \<lfloor>r\<rfloor>)"
| "np_floor PosInf = PosInf"
| "np_floor NegInf = NegInf"

fun py_int :: "py_float \<Rightarrow> py_error + int" where
  "py_int (Finite r) = Inr (if 0 \<le> r then \<lfloor>r\<rfloor> else \<lceil>r\<rceil>)"
| "py_int PosInf = Inl OverflowError"
| "py_int NegInf = Inl OverflowError"

subsection \<open>The tile-position generator\<close>

text \<open>
  \<open>int(np.floor(seq_len / 2 - protect_center / 2))\<close>: the two divisions in the order
  in which Python evaluates them, the subtraction, the floor and the conversion.
\<close>

definition protect_start_of :: "int \<Rightarrow> int \<Rightarrow> py_error + int" where
  "protect_start_of seq_len protect_center =
     (case py_truediv seq_len 2 of
        Inl e \<Rightarrow> Inl e
      | Inr a \<Rightarrow>
          (case py_truediv protect_center 2 of
             Inl e \<Rightarrow> Inl e
           | Inr b \<Rightarrow> py_int (np_floor (float_sub a b))))"

text \<open>
  The function returns either the position list alone or the pair of positions and
  distances.
\<close>

datatype tiles = Positions "int list" | PositionsDistances "int list" "int list"

fun positions_of :: "tiles \<Rightarrow> int list" where
  "positions_of (Positions ps) = ps"
| "positions_of (PositionsDistances ps ds) = ps"

text \<open>
  \<open>protect_start\<close> is bound only in the branch where \<open>protect_center\<close> is given,
  so it is carried as an option. The comprehension for the distances reads it once
  per position: with no position it is never read, with at least one position and
  the name unbound the read raises \<open>NameError\<close>. The exclusion
  \<open>range(excl_start, protect_end)\<close> is the list of the integers from
  \<open>excl_start\<close> up to \<open>protect_end - 1\<close>. An error of the centre computation
  leaves the function before \<open>range\<close> is reached.
\<close>

definition tile_positions ::
  "int \<Rightarrow> int \<Rightarrow> int \<Rightarrow> int option \<Rightarrow> bool \<Rightarrow> py_error + tiles" where
  "tile_positions seq_len tile_len stride protect_center return_distances =
     (let max_pos = seq_len - tile_len + 1
      in case (case protect_center of
                 Some pc \<Rightarrow>
                   (case protect_start_of seq_len pc of
                      Inl e \<Rightarrow> Inl e
                    | Inr protect_start \<Rightarrow>
                        (let protect_end = protect_start + pc;
                             excl_start = protect_start - tile_len + 1
                         in Inr (Some protect_start, [excl_start..protect_end - 1])))
               | None \<Rightarrow> Inr (None, [])) of
           Inl e \<Rightarrow> Inl e
         | Inr (protect_start, excl) \<Rightarrow>
             (case py_range 0 max_pos stride of
                Inl e \<Rightarrow> Inl e
              | Inr candidates \<Rightarrow>
                  (let positions = filter (\<lambda>x. x \<notin> set excl) candidates
                   in if return_distances then
                        (case protect_start of
                           Some ps \<Rightarrow>
                             Inr (PositionsDistances positions
                                    (map (\<lambda>x. x - ps) positions))
                         | None \<Rightarrow>
                             if positions = [] then Inr (PositionsDistances [] [])
                             else Inl NameError)
                      else Inr (Positions positions))))"

subsection \<open>Tables\<close>

text \<open>
  A pandas \<open>DataFrame\<close> as far as the helpers look at it: the row index and the
  list of columns. The type of a column stays abstract; the two dtype tests of
  \<open>pandas.api.types\<close> are parameters of the label validator.
\<close>

record 'c data_frame =
  df_index :: "string list"
  df_columns :: "'c list"

text \<open>\<open>df.shape[1]\<close> and \<open>df.iloc[:, i]\<close>; the latter raises \<open>IndexError\<close>
  for a column that is not there.\<close>

definition shape1 :: "'c data_frame \<Rightarrow> nat" where
  "shape1 df = length (df_columns df)"

definition iloc_col :: "'c data_frame \<Rightarrow> nat \<Rightarrow> py_error + 'c" where
  "iloc_col df i =
     (if i < length (df_columns df) then Inr (df_columns df ! i) else Inl IndexError)"

subsection \<open>The label validator\<close>

text \<open>
  Python's \<open>and\<close> and \<open>or\<close> evaluate their right operand only when the left one
  does not decide the result, so the column is read only for a table with exactly
  one column, and read again for the categorical test only when the string test
  fails.
\<close>

definition check_multiclass ::
  "('c \<Rightarrow> bool) \<Rightarrow> ('c \<Rightarrow> bool) \<Rightarrow> 'c data_frame \<Rightarrow> py_error + bool" where
  "check_multiclass is_string_dtype is_categorical_dtype df =
     (if shape1 df = 1 then
        (case iloc_col df 0 of
           Inl e \<Rightarrow> Inl e
         | Inr col \<Rightarrow>
             if is_string_dtype col then Inr True
             else (case iloc_col df 0 of
                     Inl e \<Rightarrow> Inl e
                   | Inr col' \<Rightarrow> Inr (is_categorical_dtype col')))
      else Inr False)"

subsection \<open>The task registry builder\<close>

text \<open>
  The assertion compares the size of the set of names with the length of the list;
  \<open>pd.DataFrame(index=task_names)\<close> is the table with that index and no column.
\<close>

definition create_task_data :: "string list \<Rightarrow> py_error + 'c data_frame" where
  "create_task_data task_names =
     (if card (set task_names) = length task_names
      then Inr \<lparr>df_index = task_names, df_columns = []\<rparr>
      else Inl AssertionError)"

subsection \<open>The chromosome-name expander\<close>

text \<open>\<open>str(x)\<close> on an integer: decimal digits, most significant first, with a minus
  sign for a negative number.\<close>

function digits :: "int \<Rightarrow> string" where
  "digits n =
     (if n < 10 then [char_of (48 + n)]
      else digits (n div 10) @ [char_of (48 + n mod 10)])"
  by pat_completeness auto
termination
  by (relation "measure nat") auto

declare digits.simps [simp del]

definition str :: "int \<Rightarrow> string" where
  "str n = (if n < 0 then CHR ''-'' # digits (- n) else digits n)"

text \<open>The argument is a single string or a list of strings, and so is the result.\<close>

datatype chroms = Str string | StrList "string list"

definition chrom_shortcuts :: "(string \<times> string list) list" where
  "chrom_shortcuts =
     [(''autosomes'', map (\<lambda>x. ''chr'' @ str x) (range_up 1 23 1)),
      (''autosomesX'', map (\<lambda>x. ''chr'' @ str x) (range_up 1 23 1) @ [''chrX'']),
      (''autosomesXY'', map (\<lambda>x. ''chr'' @ str x) (range_up 1 23 1) @ [''chrX'', ''chrY''])]"

definition get_chromosomes :: "chroms \<Rightarrow> chroms" where
  "get_chromosomes c =
     (case c of
        Str s \<Rightarrow>
          (case map_of chrom_shortcuts s of
             Some names \<Rightarrow> StrList names
           | None \<Rightarrow> c)
      | StrList names \<Rightarrow> c)"

section \<open>Properties\<close>

subsection \<open>Facts about \<open>range\<close>\<close>

lemma range_up_empty: "stop \<le> x \<Longrightarrow> range_up x stop step = []"
  by (simp add: range_up.simps)

lemma range_down_empty: "x \<le> stop \<Longrightarrow> range_down x stop step = []"
  by (simp add: range_down.simps)

lemma range_up_nonempty: "0 < step \<Longrightarrow> x < stop \<Longrightarrow> range_up x stop step \<noteq> []"
  by (subst range_up.simps) simp

lemma range_down_nonempty: "step < 0 \<Longrightarrow> stop < x \<Longrightarrow> range_down x stop step \<noteq> []"
  by (subst range_down.simps) simp

lemma range_up_bounds:
  "p \<in> set (range_up x stop step) \<Longrightarrow> x \<le> p \<and> p < stop \<and> step dvd (p - x)"
proof (induction x stop step rule: range_up.induct)
  case (1 x stop step)
  show ?case
  proof (cases "0 < step \<and> x < stop")
    case True
    with "1.prems" have "p = x \<or> p \<in> set (range_up (x + step) stop step)"
      by (subst (asm) range_up.simps) simp
    then show ?thesis
    proof
      assume "p = x"
      with True show ?thesis by simp
    next
      assume "p \<in> set (range_up (x + step) stop step)"
      with "1.IH" True have h: "x + step \<le> p \<and> p < stop \<and> step dvd (p - (x + step))"
        by blast
      moreover have "p - x = (p - (x + step)) + step" by simp
      ultimately have "step dvd (p - x)" by (metis dvd_add dvd_refl)
      with h True show ?thesis by simp
    qed
  next
    case False
    with "1.prems" show ?thesis by (subst (asm) range_up.simps) simp
  qed
qed

lemma range_up_ascending: "sorted_wrt (<) (range_up x stop step)"
proof (induction x stop step rule: range_up.induct)
  case (1 x stop step)
  show ?case
  proof (cases "0 < step \<and> x < stop")
    case True
    have "\<forall>p \<in> set (range_up (x + step) stop step). x < p"
      using range_up_bounds True by fastforce
    with "1.IH" True show ?thesis
      by (subst range_up.simps) simp
  next
    case False
    then have "range_up x stop step = []" by (subst range_up.simps) simp
    then show ?thesis by simp
  qed
qed

lemma range_up_complete:
  "0 < step \<Longrightarrow> x \<le> p \<Longrightarrow> p < stop \<Longrightarrow> step dvd (p - x)
     \<Longrightarrow> p \<in> set (range_up x stop step)"
proof (induction x stop step rule: range_up.induct)
  case (1 x stop step)
  from "1.prems" have T: "0 < step \<and> x < stop" by simp
  show ?case
  proof (cases "p = x")
    case True
    with T show ?thesis by (subst range_up.simps) simp
  next
    case False
    from "1.prems"(4) obtain k where k: "p - x = step * k" by (auto simp: dvd_def)
    from False "1.prems"(2) have "0 < p - x" by simp
    with k T have "0 < k" by (simp add: zero_less_mult_iff)
    then have "step \<le> step * k" using T by (simp add: mult_le_cancel_left1)
    with k have le: "x + step \<le> p" by simp
    have "p - (x + step) = step * (k - 1)" using k by (simp add: algebra_simps)
    then have "step dvd (p - (x + step))" by simp
    with "1.IH" T le "1.prems" have "p \<in> set (range_up (x + step) stop step)" by blast
    with T show ?thesis by (subst range_up.simps) simp
  qed
qed

subsection \<open>Facts about rounding\<close>

lemma round_half_even_of_int: "round_half_even (of_int k) = k"
  by (simp add: round_half_even_def)

lemma round_half_even_ge: "of_int k \<le> y \<Longrightarrow> k \<le> round_half_even y"
proof -
  assume "of_int k \<le> y"
  then have "k \<le> \<lfloor>y\<rfloor>" by (simp add: le_floor_iff)
  then show ?thesis by (simp add: round_half_even_def Let_def)
qed

lemma round_half_even_le: "y \<le> of_int k \<Longrightarrow> round_half_even y \<le> k"
proof (cases "y = of_int k")
  case True
  then show ?thesis by (simp add: round_half_even_of_int)
next
  case False
  assume "y \<le> of_int k"
  with False have "y < of_int k" by simp
  then have "\<lfloor>y\<rfloor> < k" by (simp add: floor_less_iff)
  then show ?thesis by (simp add: round_half_even_def Let_def)
qed

lemma ulp_exp_le:
  "e \<le> k \<Longrightarrow> \<bar>x\<bar> < 2 powi (k + 53) \<Longrightarrow> ulp_exp x e \<le> k"
proof (induction x e rule: ulp_exp.induct)
  case (1 x e)
  show ?case
  proof (cases "\<bar>x\<bar> < 2 powi (e + 53) \<or> 971 \<le> e")
    case True
    then have "ulp_exp x e = e" by (subst ulp_exp.simps) simp
    with "1.prems" show ?thesis by simp
  next
    case False
    then have eq: "ulp_exp x e = ulp_exp x (e + 1)" by (subst ulp_exp.simps) simp
    from False "1.prems" have "e \<noteq> k" by auto
    with "1.prems" have "e + 1 \<le> k" by simp
    with "1.IH" False "1.prems" eq show ?thesis by simp
  qed
qed

lemma ulp_exp_eq:
  "e0 \<le> e \<Longrightarrow> e \<le> 971 \<Longrightarrow> 2 powi (e + 52) \<le> \<bar>x\<bar>
     \<Longrightarrow> \<bar>x\<bar> < 2 powi (e + 53) \<or> e = 971 \<Longrightarrow> ulp_exp x e0 = e"
proof (induction x e0 rule: ulp_exp.induct)
  case (1 x e0)
  show ?case
  proof (cases "e0 = e")
    case True
    with "1.prems" show ?thesis by (subst ulp_exp.simps) auto
  next
    case False
    with "1.prems" have lt: "e0 < e" by simp
    then have "e0 + 53 \<le> e + 52" by simp
    then have "(2::rat) powi (e0 + 53) \<le> 2 powi (e + 52)"
      by (rule power_int_increasing) simp
    with "1.prems"(3) have n: "\<not> \<bar>x\<bar> < 2 powi (e0 + 53)" by simp
    from lt "1.prems"(2) have n2: "\<not> 971 \<le> e0" by simp
    from n n2 have eq: "ulp_exp x e0 = ulp_exp x (e0 + 1)" by (subst ulp_exp.simps) simp
    from lt have "e0 + 1 \<le> e" by simp
    with "1.IH" n n2 "1.prems" eq show ?thesis by simp
  qed
qed

text \<open>Every multiple of one half below \<open>2 ^ 52\<close> in magnitude is a double.\<close>

lemma double_exact:
  assumes "\<bar>x\<bar> < 2 ^ 52" and "x = of_int n / 2"
  shows "double_of_rat x = Finite x"
proof -
  define e where "e = ulp_exp x (- 1074)"
  have "\<bar>x\<bar> < 2 powi (- 1 + 53)" using assms(1) by simp
  then have "e \<le> - 1" unfolding e_def by (intro ulp_exp_le) simp_all
  then obtain k where k: "e = - 1 - int k"
    by (metis diff_ge_0_iff_ge diff_diff_eq2 nonneg_int_cases add_diff_cancel_left')
  have p: "(2::rat) powi e = 1 / (2 * 2 ^ k)"
    unfolding k by (simp add: power_int_diff power_int_minus field_simps)
  have q: "x / 2 powi e = of_int (n * 2 ^ k)"
    unfolding p assms(2) by simp
  have r: "of_int (round_half_even (x / 2 powi e)) * 2 powi e = x"
    unfolding q round_half_even_of_int unfolding p assms(2) by simp
  have "\<bar>x\<bar> < 2 ^ 1024"
    using assms(1) by (rule less_trans) simp
  then show ?thesis
    unfolding double_of_rat_def Let_def e_def [symmetric] r by simp
qed

text \<open>A number of magnitude \<open>2 ^ 1024\<close> or more rounds to an infinity.\<close>

lemma double_overflow:
  assumes "2 ^ 1024 \<le> \<bar>x\<bar>"
  shows "double_of_rat x = (if 0 < x then PosInf else NegInf)"
proof -
  have "(2::rat) powi (971 + 52) \<le> \<bar>x\<bar>"
    using assms by (rule order_trans [rotated]) simp
  then have e: "ulp_exp x (- 1074) = 971" by (intro ulp_exp_eq) simp_all
  have p: "(2::rat) powi 971 = 2 ^ 971" by simp
  have big: "(2::rat) ^ 53 \<le> \<bar>x\<bar> / 2 ^ 971"
  proof -
    have "(2::rat) ^ 53 * 2 ^ 971 = 2 ^ 1024" by (simp flip: power_add)
    with assms have "(2::rat) ^ 53 * 2 ^ 971 \<le> \<bar>x\<bar>" by simp
    then show ?thesis by (simp add: pos_le_divide_eq)
  qed
  have m: "2 ^ 53 \<le> \<bar>round_half_even (x / 2 ^ 971)\<bar>"
  proof (cases "0 \<le> x")
    case True
    with big have "of_int (2 ^ 53) \<le> x / 2 ^ 971" by simp
    then have "2 ^ 53 \<le> round_half_even (x / 2 ^ 971)" by (rule round_half_even_ge)
    then show ?thesis by simp
  next
    case False
    with big have "x / 2 ^ 971 \<le> of_int (- (2 ^ 53))" by simp
    then have "round_half_even (x / 2 ^ 971) \<le> - (2 ^ 53)" by (rule round_half_even_le)
    then show ?thesis by simp
  qed
  have "(2::rat) ^ 1024 = 2 ^ 53 * 2 ^ 971" by (simp flip: power_add)
  also have "\<dots> \<le> of_int \<bar>round_half_even (x / 2 ^ 971)\<bar> * 2 ^ 971"
  proof -
    from m have "(of_int (2 ^ 53) :: rat) \<le> of_int \<bar>round_half_even (x / 2 ^ 971)\<bar>"
      by (simp only: of_int_le_iff)
    then show ?thesis by simp
  qed
  also have "\<dots> = \<bar>of_int (round_half_even (x / 2 ^ 971)) * 2 ^ 971\<bar>"
    by (simp add: abs_mult)
  finally show ?thesis
    unfolding double_of_rat_def Let_def e p by simp
qed

text \<open>A double between \<open>2 ^ 52\<close> and \<open>2 ^ 53\<close> is an integer: the spacing there is one.\<close>

lemma double_unit_spacing:
  assumes "2 ^ 52 \<le> \<bar>x\<bar>" and "\<bar>x\<bar> < 2 ^ 53"
  shows "double_of_rat x = Finite (of_int (round_half_even x))"
proof -
  from assms have e: "ulp_exp x (- 1074) = 0" by (intro ulp_exp_eq) simp_all
  have "\<bar>round_half_even x\<bar> \<le> 2 ^ 53"
  proof -
    from assms(2) have "x \<le> of_int (2 ^ 53)" and "of_int (- (2 ^ 53)) \<le> x" by simp_all
    then have "round_half_even x \<le> 2 ^ 53" and "- (2 ^ 53) \<le> round_half_even x"
      by (simp_all only: round_half_even_le round_half_even_ge)
    then show ?thesis by simp
  qed
  then have "(of_int \<bar>round_half_even x\<bar> :: rat) \<le> of_int (2 ^ 53)"
    by (simp only: of_int_le_iff)
  then have "\<bar>of_int (round_half_even x) :: rat\<bar> \<le> 2 ^ 53" by simp
  also have "(2::rat) ^ 53 < 2 ^ 1024" by simp
  finally show ?thesis
    unfolding double_of_rat_def Let_def e by simp
qed

subsection \<open>Facts about the centre computation\<close>

lemma py_truediv_two_exact:
  "\<bar>n\<bar> < 2 ^ 52 \<Longrightarrow> py_truediv n 2 = Inr (of_int n / 2)"
proof -
  assume a: "\<bar>n\<bar> < 2 ^ 52"
  have "\<bar>(of_int n :: rat) / 2\<bar> = of_int \<bar>n\<bar> / 2" by simp
  also have "\<dots> \<le> of_int \<bar>n\<bar>" by simp
  also have "\<dots> < 2 ^ 52" using a by (metis of_int_less_numeral_power_cancel_iff)
  finally have "double_of_rat (of_int n / 2) = Finite (of_int n / 2)"
    by (rule double_exact) (rule refl)
  then show ?thesis by (simp add: py_truediv_def)
qed

lemma py_truediv_two_overflow:
  "2 ^ 1025 \<le> \<bar>n\<bar> \<Longrightarrow> py_truediv n 2 = Inl OverflowError"
proof -
  assume "2 ^ 1025 \<le> \<bar>n\<bar>"
  then have "(of_int (2 ^ 1025) :: rat) \<le> of_int \<bar>n\<bar>" by (simp only: of_int_le_iff)
  then have "(2::rat) ^ 1024 \<le> \<bar>of_int n / 2\<bar>" by simp
  from double_overflow [OF this] show ?thesis
    by (simp add: py_truediv_def)
qed

lemma py_truediv_error: "py_truediv a 2 = Inl e \<Longrightarrow> e = OverflowError"
  by (auto simp: py_truediv_def split: py_float.splits)

lemma py_int_error: "py_int x = Inl e \<Longrightarrow> e = OverflowError"
  by (cases x) auto

lemma protect_start_of_error:
  "protect_start_of seq_len protect_center = Inl e \<Longrightarrow> e = OverflowError"
  by (auto simp: protect_start_of_def split: sum.splits dest: py_truediv_error py_int_error)

lemma protect_start_overflow:
  "2 ^ 1025 \<le> \<bar>protect_center\<bar>
     \<Longrightarrow> protect_start_of seq_len protect_center = Inl OverflowError"
  by (auto simp: protect_start_of_def py_truediv_two_overflow split: sum.splits
           dest: py_truediv_error)

text \<open>Below \<open>2 ^ 52\<close> the float computation is exact.\<close>

lemma protect_start_exact:
  assumes "\<bar>seq_len\<bar> < 2 ^ 52" and "\<bar>protect_center\<bar> < 2 ^ 52"
  shows "protect_start_of seq_len protect_center = Inr ((seq_len - protect_center) div 2)"
proof -
  have d: "(of_int seq_len :: rat) / 2 - of_int protect_center / 2
             = of_int (seq_len - protect_center) / 2"
    by (simp add: diff_divide_distrib)
  from assms have "\<bar>seq_len - protect_center\<bar> < 2 * 2 ^ 52" by linarith
  then have "(of_int \<bar>seq_len - protect_center\<bar> :: rat) < of_int (2 * 2 ^ 52)"
    by (simp only: of_int_less_iff)
  then have "\<bar>(of_int (seq_len - protect_center) :: rat) / 2\<bar> < 2 ^ 52" by simp
  then have s: "float_sub (of_int seq_len / 2) (of_int protect_center / 2)
                  = Finite (of_int (seq_len - protect_center) / 2)"
    unfolding float_sub_def d by (rule double_exact) (rule refl)
  have f: "\<lfloor>(of_int (seq_len - protect_center) :: rat) / 2\<rfloor> = (seq_len - protect_center) div 2"
    using floor_divide_of_int_eq [of "seq_len - protect_center" 2, where 'a = rat] by simp
  have "py_int (np_floor (Finite (of_int (seq_len - protect_center) / 2)))
          = Inr ((seq_len - protect_center) div 2)"
    using f by simp
  then show ?thesis
    by (simp only: protect_start_of_def py_truediv_two_exact [OF assms(1)]
          py_truediv_two_exact [OF assms(2)] sum.case s)
qed

text \<open>Above \<open>2 ^ 53\<close> it is not: the half of \<open>2 ^ 53 + 3\<close> is rounded upwards.\<close>

lemma protect_start_rounded:
  "protect_start_of 9007199254740995 0 = Inr 4503599627370498"
proof -
  have a: "py_truediv 9007199254740995 2 = Inr 4503599627370498"
  proof -
    have "double_of_rat (9007199254740995 / 2)
            = Finite (of_int (round_half_even (9007199254740995 / 2)))"
      by (rule double_unit_spacing) simp_all
    moreover have "\<lfloor>(9007199254740995::rat) / 2\<rfloor> = 4503599627370497"
      using floor_divide_of_int_eq [of 9007199254740995 2, where 'a = rat] by simp
    then have "round_half_even (9007199254740995 / 2) = 4503599627370498"
      by (simp add: round_half_even_def Let_def)
    ultimately show ?thesis by (simp add: py_truediv_def)
  qed
  have b: "py_truediv 0 2 = Inr 0"
    using py_truediv_two_exact [of 0] by simp
  have "double_of_rat 4503599627370498
          = Finite (of_int (round_half_even 4503599627370498))"
    by (rule double_unit_spacing) simp_all
  moreover have "round_half_even 4503599627370498 = 4503599627370498"
    using round_half_even_of_int [of 4503599627370498] by simp
  ultimately have c: "float_sub 4503599627370498 0 = Finite 4503599627370498"
    by (simp add: float_sub_def)
  show ?thesis
    by (simp add: protect_start_of_def a b c)
qed

subsection \<open>The shape of the result of the tile-position generator\<close>

lemma tile_positions_None:
  "tile_positions seq_len tile_len stride None return_distances =
     (case py_range 0 (seq_len - tile_len + 1) stride of
        Inl e \<Rightarrow> Inl e
      | Inr candidates \<Rightarrow>
          if return_distances then
            (if candidates = [] then Inr (PositionsDistances [] []) else Inl NameError)
          else Inr (Positions candidates))"
  by (simp add: tile_positions_def Let_def split: sum.split)

lemma tile_positions_Some:
  assumes "protect_start_of seq_len pc = Inr ps"
  shows "tile_positions seq_len tile_len stride (Some pc) return_distances =
     (case py_range 0 (seq_len - tile_len + 1) stride of
        Inl e \<Rightarrow> Inl e
      | Inr candidates \<Rightarrow>
          Inr (if return_distances then
                 PositionsDistances
                   (filter (\<lambda>x. \<not> (ps - tile_len + 1 \<le> x \<and> x < ps + pc)) candidates)
                   (map (\<lambda>x. x - ps)
                      (filter (\<lambda>x. \<not> (ps - tile_len + 1 \<le> x \<and> x < ps + pc)) candidates))
               else
                 Positions
                   (filter (\<lambda>x. \<not> (ps - tile_len + 1 \<le> x \<and> x < ps + pc)) candidates)))"
proof -
  have "filter (\<lambda>x. x \<notin> set [ps - tile_len + 1..ps + pc - 1]) xs
          = filter (\<lambda>x. \<not> (ps - tile_len + 1 \<le> x \<and> x < ps + pc)) xs" for xs
    by (rule filter_cong) auto
  then show ?thesis
    by (simp add: tile_positions_def Let_def assms split: sum.split)
qed

lemma tile_positions_Some_error:
  assumes "protect_start_of seq_len pc = Inl e"
  shows "tile_positions seq_len tile_len stride (Some pc) return_distances = Inl OverflowError"
  using assms protect_start_of_error [OF assms]
  by (simp add: tile_positions_def Let_def)

subsection \<open>Claims about the tile-position generator\<close>

text \<open>
  C2: the call with \<open>seq_len = 20\<close>, \<open>tile_len = 5\<close>, \<open>stride = 1\<close> and
  \<open>protect_center = 4\<close> has \<open>protect_start = 8\<close> and returns exactly the
  positions 0, 1, 2, 3, 12, 13, 14, 15: the protected region ends at 12, the
  exclusion range starts at 4, and of the candidates 0 to 15 exactly those from 4
  to 11 are dropped.
\<close>

theorem tile_positions_example:
  "protect_start_of 20 4 = Inr 8
   \<and> map_sum id (\<lambda>protect_start. protect_start + 4) (protect_start_of 20 4) = Inr 12
   \<and> map_sum id (\<lambda>protect_start. protect_start - 5 + 1) (protect_start_of 20 4) = Inr 4
   \<and> py_range 0 (20 - 5 + 1) 1 = Inr [0, 1, 2, 3, 4, 5, 6, 7, 8, 9, 10, 11, 12, 13, 14, 15]
   \<and> tile_positions 20 5 1 (Some 4) False = Inr (Positions [0, 1, 2, 3, 12, 13, 14, 15])"
proof -
  have ps: "protect_start_of 20 4 = Inr 8"
    using protect_start_exact [of 20 4] by simp
  have r: "py_range 0 (20 - 5 + 1) 1
             = Inr [0, 1, 2, 3, 4, 5, 6, 7, 8, 9, 10, 11, 12, 13, 14, 15]"
    by (simp add: py_range_def range_up.simps)
  have t: "tile_positions 20 5 1 (Some 4) False
             = Inr (Positions [0, 1, 2, 3, 12, 13, 14, 15])"
    using r by (simp add: tile_positions_Some [OF ps])
  from ps r t show ?thesis by simp
qed

text \<open>
  C1: for valid arguments (\<open>seq_len \<ge> 0\<close>, \<open>tile_len \<ge> 1\<close>, \<open>stride \<ge> 1\<close>) every
  returned position \<open>p\<close> satisfies \<open>0 \<le> p < max_pos\<close> with
  \<open>max_pos = seq_len - tile_len + 1\<close>, hence \<open>p + tile_len \<le> seq_len\<close>, is a multiple
  of the stride and, when a protected centre is given, lies outside the exclusion
  range from \<open>protect_start - tile_len + 1\<close> up to, not including, \<open>protect_end\<close>,
  for the \<open>protect_start\<close> that the call computed; the returned list is strictly
  ascending. The call does return when no centre is given and no distances are
  requested, and when a centre is given and its computation does not overflow.
\<close>

theorem tile_positions_valid:
  assumes "0 \<le> seq_len" and "1 \<le> tile_len" and "1 \<le> stride"
  shows "(\<forall>r. tile_positions seq_len tile_len stride protect_center return_distances = Inr r \<longrightarrow>
            (\<forall>p \<in> set (positions_of r).
               0 \<le> p \<and> p < seq_len - tile_len + 1 \<and> p + tile_len \<le> seq_len
               \<and> p mod stride = 0
               \<and> (\<forall>c. protect_center = Some c \<longrightarrow>
                     (\<exists>protect_start.
                        protect_start_of seq_len c = Inr protect_start
                        \<and> \<not> (protect_start - tile_len + 1 \<le> p \<and> p < protect_start + c))))
            \<and> sorted_wrt (<) (positions_of r))
       \<and> ((protect_center = None \<and> \<not> return_distances)
            \<or> (\<exists>c protect_start. protect_center = Some c
                  \<and> protect_start_of seq_len c = Inr protect_start) \<longrightarrow>
            (\<exists>r. tile_positions seq_len tile_len stride protect_center return_distances = Inr r))"
proof -
  from assms(3) have st: "0 < stride" "stride \<noteq> 0" by simp_all
  let ?cands = "range_up 0 (seq_len - tile_len + 1) stride"
  have range: "py_range 0 (seq_len - tile_len + 1) stride = Inr ?cands"
    using st by (simp add: py_range_def)
  have cand: "0 \<le> p \<and> p < seq_len - tile_len + 1 \<and> p + tile_len \<le> seq_len \<and> p mod stride = 0"
    if "p \<in> set ?cands" for p
  proof -
    from range_up_bounds [OF that]
    have "0 \<le> p" and "p < seq_len - tile_len + 1" and "stride dvd p" by simp_all
    then show ?thesis by simp
  qed
  show ?thesis
  proof (cases protect_center)
    case None
    show ?thesis
      unfolding None tile_positions_None range
      using cand range_up_ascending [of 0 "seq_len - tile_len + 1" stride]
      by (auto split: if_splits)
  next
    case (Some c)
    show ?thesis
    proof (cases "protect_start_of seq_len c")
      case (Inl e)
      show ?thesis
        unfolding Some tile_positions_Some_error [OF Inl] using Inl by simp
    next
      case (Inr ps)
      have sorted: "sorted_wrt (<) (filter P ?cands)" for P
        by (rule sorted_wrt_filter) (rule range_up_ascending)
      show ?thesis
        unfolding Some tile_positions_Some [OF Inr] range
        using cand sorted Inr by auto
    qed
  qed
qed

theorem tile_positions_valid_witness:
  "(0::int) \<le> 20 \<and> (1::int) \<le> 5 \<and> (1::int) \<le> 1
   \<and> tile_positions 20 5 1 (Some 4) False = Inr (Positions [0, 1, 2, 3, 12, 13, 14, 15])
   \<and> protect_start_of 20 4 = Inr 8
   \<and> (0::int) \<le> 12 \<and> (12::int) < 20 - 5 + 1 \<and> (12::int) + 5 \<le> 20 \<and> (12::int) mod 1 = 0
   \<and> \<not> ((8::int) - 5 + 1 \<le> 12 \<and> (12::int) < 8 + 4)
   \<and> sorted_wrt (<) [0, 1, 2, 3, 12, 13, 14, 15 :: int]"
proof -
  have ps: "protect_start_of 20 4 = Inr 8"
    using protect_start_exact [of 20 4] by simp
  have e: "tile_positions 20 5 1 (Some 4) False = Inr (Positions [0, 1, 2, 3, 12, 13, 14, 15])"
    by (simp add: tile_positions_Some [OF ps] py_range_def range_up.simps)
  have h: "(0::int) \<le> 20" "(1::int) \<le> 5" "(1::int) \<le> 1" by simp_all
  from tile_positions_valid [OF h, of "Some 4" False] e ps
  show ?thesis by simp
qed

text \<open>
  C3: with a protected centre given and distances requested, every result that is
  returned is a pair whose distance list has the length of the position list, and
  whose entry at each index is the position at that index minus the \<open>protect_start\<close>
  that the call computed. The call does return for a non-zero stride when the centre
  computation does not overflow.
\<close>

theorem tile_distances_aligned:
  "(\<forall>r. tile_positions seq_len tile_len stride (Some c) True = Inr r \<longrightarrow>
      (\<exists>ps ds protect_start.
          r = PositionsDistances ps ds
          \<and> protect_start_of seq_len c = Inr protect_start
          \<and> length ds = length ps
          \<and> (\<forall>i < length ps. ds ! i = ps ! i - protect_start)))
   \<and> (stride \<noteq> 0 \<and> (\<exists>protect_start. protect_start_of seq_len c = Inr protect_start) \<longrightarrow>
        (\<exists>r. tile_positions seq_len tile_len stride (Some c) True = Inr r))"
proof (cases "protect_start_of seq_len c")
  case (Inl e)
  show ?thesis
    unfolding tile_positions_Some_error [OF Inl] using Inl by simp
next
  case (Inr start)
  show ?thesis
    unfolding tile_positions_Some [OF Inr] using Inr
    by (auto simp: py_range_def split: sum.splits if_splits)
qed

theorem tile_distances_aligned_witness:
  "tile_positions 20 5 1 (Some 4) True
       = Inr (PositionsDistances [0, 1, 2, 3, 12, 13, 14, 15] [-8, -7, -6, -5, 4, 5, 6, 7])
   \<and> protect_start_of 20 4 = Inr 8
   \<and> length [-8, -7, -6, -5, 4, 5, 6, 7 :: int] = length [0, 1, 2, 3, 12, 13, 14, 15 :: int]
   \<and> [-8, -7, -6, -5, 4, 5, 6, 7 :: int] ! 4 = [0, 1, 2, 3, 12, 13, 14, 15] ! 4 - 8"
proof -
  have ps: "protect_start_of 20 4 = Inr 8"
    using protect_start_exact [of 20 4] by simp
  have e: "tile_positions 20 5 1 (Some 4) True
       = Inr (PositionsDistances [0, 1, 2, 3, 12, 13, 14, 15] [-8, -7, -6, -5, 4, 5, 6, 7])"
    by (simp add: tile_positions_Some [OF ps] py_range_def range_up.simps)
  from tile_distances_aligned [of 20 5 1 4] e ps
  show ?thesis by simp
qed

text \<open>
  C4, as stated, fails: with distances requested and no protected centre, a call
  that produces no position returns the pair of two empty lists instead of failing.
\<close>

theorem tile_distances_without_center_counterexample:
  "tile_positions 3 5 1 None True = Inr (PositionsDistances [] [])"
  by (simp add: tile_positions_None py_range_def range_up.simps)

text \<open>
  C4, amended: with distances requested and no protected centre, the call raises
  \<open>ValueError\<close> for a zero stride and \<open>NameError\<close> whenever at least one position
  is produced (positive stride and \<open>tile_len \<le> seq_len\<close>, or negative stride and
  \<open>max_pos < 0\<close>); in every other case it returns the pair of two empty lists.
\<close>

theorem tile_distances_without_center:
  "tile_positions seq_len tile_len stride None True =
     (if stride = 0 then Inl ValueError
      else if (0 < stride \<and> tile_len \<le> seq_len) \<or> (stride < 0 \<and> seq_len + 1 < tile_len)
      then Inl NameError
      else Inr (PositionsDistances [] []))"
  by (auto simp: tile_positions_None py_range_def range_up_empty range_down_empty
                 range_up_nonempty range_down_nonempty)

theorem tile_distances_without_center_witness:
  "tile_positions 20 5 0 None True = Inl ValueError
   \<and> tile_positions 20 5 5 None True = Inl NameError
   \<and> tile_positions 3 5 5 None True = Inr (PositionsDistances [] [])"
  using tile_distances_without_center [of 20 5 0] tile_distances_without_center [of 20 5 5]
        tile_distances_without_center [of 3 5 5]
  by simp

text \<open>
  C5, as stated, fails: a negative stride, a tile length of zero and a negative
  sequence length are each accepted, and a position list is returned.
\<close>

theorem tile_invalid_arguments_counterexample:
  "tile_positions 20 5 (- 1) None False = Inr (Positions [])
   \<and> tile_positions 3 0 1 None False = Inr (Positions [0, 1, 2, 3])
   \<and> tile_positions (- 3) 1 1 None False = Inr (Positions [])"
  by (simp add: tile_positions_None py_range_def range_up.simps range_down.simps)

text \<open>
  C5, amended: the call is rejected only by \<open>range\<close> and by the float arithmetic. A
  zero stride raises \<open>ValueError\<close>, unless a protected centre is given whose
  computation overflows first; an overflowing centre computation raises
  \<open>OverflowError\<close>. With a non-zero stride no other argument is rejected, whatever
  the signs of \<open>seq_len\<close>, \<open>tile_len\<close> and \<open>stride\<close>: the call returns a result when
  no centre is given and no distances are requested, and when a centre is given
  whose computation does not overflow, as for \<open>seq_len\<close> and \<open>protect_center\<close> below
  \<open>2 ^ 52\<close> in magnitude.
\<close>

theorem tile_invalid_arguments:
  "(stride = 0 \<and> (protect_center = None
                   \<or> (\<exists>c protect_start. protect_center = Some c
                         \<and> protect_start_of seq_len c = Inr protect_start)) \<longrightarrow>
      tile_positions seq_len tile_len stride protect_center return_distances = Inl ValueError)
   \<and> ((\<exists>c e. protect_center = Some c \<and> protect_start_of seq_len c = Inl e) \<longrightarrow>
      tile_positions seq_len tile_len stride protect_center return_distances = Inl OverflowError)
   \<and> (stride \<noteq> 0 \<and> ((protect_center = None \<and> \<not> return_distances)
                     \<or> (\<exists>c protect_start. protect_center = Some c
                           \<and> protect_start_of seq_len c = Inr protect_start)) \<longrightarrow>
      (\<exists>r. tile_positions seq_len tile_len stride protect_center return_distances = Inr r))
   \<and> (\<forall>c. \<bar>seq_len\<bar> < 2 ^ 52 \<and> \<bar>c\<bar> < 2 ^ 52 \<longrightarrow>
          protect_start_of seq_len c = Inr ((seq_len - c) div 2))"
proof (intro conjI impI allI)
  assume "stride = 0 \<and> (protect_center = None
                   \<or> (\<exists>c protect_start. protect_center = Some c
                         \<and> protect_start_of seq_len c = Inr protect_start))"
  then show "tile_positions seq_len tile_len stride protect_center return_distances
               = Inl ValueError"
    by (auto simp: tile_positions_None tile_positions_Some py_range_def)
next
  assume "\<exists>c e. protect_center = Some c \<and> protect_start_of seq_len c = Inl e"
  then show "tile_positions seq_len tile_len stride protect_center return_distances
               = Inl OverflowError"
    by (auto simp: tile_positions_Some_error)
next
  assume "stride \<noteq> 0 \<and> ((protect_center = None \<and> \<not> return_distances)
                     \<or> (\<exists>c protect_start. protect_center = Some c
                           \<and> protect_start_of seq_len c = Inr protect_start))"
  then show "\<exists>r. tile_positions seq_len tile_len stride protect_center return_distances = Inr r"
    by (auto simp: tile_positions_None tile_positions_Some py_range_def)
next
  fix c :: int
  assume "\<bar>seq_len\<bar> < 2 ^ 52 \<and> \<bar>c\<bar> < 2 ^ 52"
  then show "protect_start_of seq_len c = Inr ((seq_len - c) div 2)"
    by (simp add: protect_start_exact)
qed

theorem tile_invalid_arguments_witness:
  "tile_positions 20 5 0 (Some 4) False = Inl ValueError
   \<and> tile_positions 20 5 0 (Some (2 ^ 1025)) False = Inl OverflowError
   \<and> (\<exists>r. tile_positions (- 3) 0 (- 1) (Some 4) True = Inr r)
   \<and> protect_start_of (- 3) 4 = Inr (- 4)"
proof -
  have a: "protect_start_of 20 4 = Inr 8"
    using protect_start_exact [of 20 4] by simp
  have b: "protect_start_of 20 (2 ^ 1025) = Inl OverflowError"
    by (rule protect_start_overflow) simp
  have c: "protect_start_of (- 3) 4 = Inr (- 4)"
    using protect_start_exact [of "- 3" 4] by simp
  from tile_invalid_arguments [of 0 "Some 4" 20 5 False]
       tile_invalid_arguments [of 0 "Some (2 ^ 1025)" 20 5 False]
       tile_invalid_arguments [of "- 1" "Some 4" "- 3" 0 True] a b c
  show ?thesis by simp
qed

text \<open>
  C9, as stated, fails: with \<open>tile_len > seq_len\<close> and \<open>stride \<ge> 1\<close>, a protected
  centre too large for a float makes the call raise \<open>OverflowError\<close>.
\<close>

theorem tile_longer_than_sequence_counterexample:
  "tile_positions 3 5 1 (Some (10 ^ 400)) False = Inl OverflowError"
proof -
  have "protect_start_of 3 (10 ^ 400) = Inl OverflowError"
    by (rule protect_start_overflow) simp
  then show ?thesis by (rule tile_positions_Some_error)
qed

text \<open>
  C9, amended: when \<open>tile_len > seq_len\<close> and \<open>stride \<ge> 1\<close> the call returns the
  empty position list, and the pair of two empty lists when distances are requested,
  and raises nothing, provided that no protected centre is given or that the centre
  computation does not overflow, as for \<open>seq_len\<close> and \<open>protect_center\<close> below
  \<open>2 ^ 52\<close> in magnitude; when that computation overflows the call raises
  \<open>OverflowError\<close>.
\<close>

theorem tile_longer_than_sequence:
  assumes "seq_len < tile_len" and "1 \<le> stride"
  shows "(protect_center = None
            \<or> (\<exists>c protect_start. protect_center = Some c
                  \<and> protect_start_of seq_len c = Inr protect_start)
            \<or> (\<exists>c. protect_center = Some c \<and> \<bar>seq_len\<bar> < 2 ^ 52 \<and> \<bar>c\<bar> < 2 ^ 52) \<longrightarrow>
          tile_positions seq_len tile_len stride protect_center return_distances
            = Inr (if return_distances then PositionsDistances [] [] else Positions []))
       \<and> ((\<exists>c e. protect_center = Some c \<and> protect_start_of seq_len c = Inl e) \<longrightarrow>
          tile_positions seq_len tile_len stride protect_center return_distances
            = Inl OverflowError)"
proof -
  from assms have range: "py_range 0 (seq_len - tile_len + 1) stride = Inr []"
    by (simp add: py_range_def range_up_empty)
  show ?thesis
  proof (cases protect_center)
    case None
    show ?thesis unfolding None tile_positions_None range by simp
  next
    case (Some c)
    show ?thesis
    proof (cases "protect_start_of seq_len c")
      case (Inl e)
      have "\<not> (\<bar>seq_len\<bar> < 2 ^ 52 \<and> \<bar>c\<bar> < 2 ^ 52)"
        using Inl protect_start_exact [of seq_len c] by auto
      then show ?thesis
        unfolding Some tile_positions_Some_error [OF Inl] using Inl by simp
    next
      case (Inr ps)
      show ?thesis
        unfolding Some tile_positions_Some [OF Inr] range using Inr by simp
    qed
  qed
qed

theorem tile_longer_than_sequence_witness:
  "(3::int) < 5 \<and> (1::int) \<le> 2
   \<and> tile_positions 3 5 2 (Some 1) True = Inr (PositionsDistances [] [])
   \<and> tile_positions 3 5 2 None False = Inr (Positions [])
   \<and> tile_positions 3 5 2 (Some (2 ^ 1025)) False = Inl OverflowError"
proof -
  have b: "protect_start_of 3 (2 ^ 1025) = Inl OverflowError"
    by (rule protect_start_overflow) simp
  have h: "(3::int) < 5" "(1::int) \<le> 2" by simp_all
  from tile_longer_than_sequence [OF h, of "Some 1" True]
       tile_longer_than_sequence [OF h, of None False]
       tile_longer_than_sequence [OF h, of "Some (2 ^ 1025)" False] b
  show ?thesis by simp
qed

text \<open>
  C10, as stated, fails: for \<open>seq_len = 2 ^ 53 + 3\<close> the float computation gives
  \<open>protect_start = 4503599627370498\<close>, not the floor of \<open>seq_len / 2\<close>, which is
  \<open>4503599627370497\<close>; with \<open>tile_len = 2\<close> and \<open>stride = 2 ^ 52\<close> the candidate
  \<open>2 ^ 52\<close> lies in the range from \<open>floor(seq_len / 2) - tile_len + 1\<close> up to
  \<open>floor(seq_len / 2)\<close> and is returned.
\<close>

theorem tile_empty_center_excludes_counterexample:
  "protect_start_of 9007199254740995 0 = Inr 4503599627370498
   \<and> (9007199254740995::int) div 2 = 4503599627370497
   \<and> (9007199254740995::int) div 2 - 2 + 1 \<le> 4503599627370496
   \<and> (4503599627370496::int) < 9007199254740995 div 2
   \<and> tile_positions 9007199254740995 2 4503599627370496 (Some 0) False
       = Inr (Positions [0, 4503599627370496, 9007199254740992])"
proof -
  have "tile_positions 9007199254740995 2 4503599627370496 (Some 0) False
       = Inr (Positions [0, 4503599627370496, 9007199254740992])"
    by (simp add: tile_positions_Some [OF protect_start_rounded] py_range_def range_up.simps)
  with protect_start_rounded show ?thesis by simp
qed

text \<open>
  C10, amended: with \<open>protect_center = 0\<close>, \<open>tile_len > 1\<close> and \<open>stride \<ge> 1\<close>, for
  the \<open>protect_start\<close> that the call computed, every \<open>x\<close> with
  \<open>protect_start - tile_len + 1 \<le> x < protect_start\<close> is absent from the result,
  although the protected region is empty: such an \<open>x\<close>, when it is a candidate, is
  returned by the call without a protected centre. The computed \<open>protect_start\<close> is
  the floor of \<open>seq_len / 2\<close> whenever \<open>seq_len\<close> is below \<open>2 ^ 52\<close> in magnitude.
\<close>

theorem tile_empty_center_excludes:
  assumes "1 \<le> stride" and "1 < tile_len"
    and "protect_start_of seq_len 0 = Inr protect_start"
    and "protect_start - tile_len + 1 \<le> x" and "x < protect_start"
  shows "(\<exists>r. tile_positions seq_len tile_len stride (Some 0) return_distances = Inr r
              \<and> x \<notin> set (positions_of r))
       \<and> (0 \<le> x \<and> x < seq_len - tile_len + 1 \<and> stride dvd x \<longrightarrow>
            (\<exists>qs. tile_positions seq_len tile_len stride None False = Inr (Positions qs)
                  \<and> x \<in> set qs))
       \<and> (\<bar>seq_len\<bar> < 2 ^ 52 \<longrightarrow> protect_start = seq_len div 2)"
proof (intro conjI impI)
  from assms(1) have st: "0 < stride" "stride \<noteq> 0" by simp_all
  then have range: "py_range 0 (seq_len - tile_len + 1) stride
                      = Inr (range_up 0 (seq_len - tile_len + 1) stride)"
    by (simp add: py_range_def)
  show "\<exists>r. tile_positions seq_len tile_len stride (Some 0) return_distances = Inr r
              \<and> x \<notin> set (positions_of r)"
    unfolding tile_positions_Some [OF assms(3)] range using assms(4,5) by simp
  show "\<exists>qs. tile_positions seq_len tile_len stride None False = Inr (Positions qs) \<and> x \<in> set qs"
    if "0 \<le> x \<and> x < seq_len - tile_len + 1 \<and> stride dvd x"
  proof -
    from that st have "x \<in> set (range_up 0 (seq_len - tile_len + 1) stride)"
      by (intro range_up_complete) simp_all
    then show ?thesis unfolding tile_positions_None range by simp
  qed
  show "protect_start = seq_len div 2" if "\<bar>seq_len\<bar> < 2 ^ 52"
    using assms(3) protect_start_exact [OF that, of 0] by simp
qed

theorem tile_empty_center_excludes_witness:
  "(1::int) \<le> 1 \<and> (1::int) < 5 \<and> protect_start_of 20 0 = Inr 10
   \<and> (10::int) - 5 + 1 \<le> 6 \<and> (6::int) < 10
   \<and> tile_positions 20 5 1 (Some 0) False
       = Inr (Positions [0, 1, 2, 3, 4, 5, 10, 11, 12, 13, 14, 15])
   \<and> (6::int) \<notin> set [0, 1, 2, 3, 4, 5, 10, 11, 12, 13, 14, 15]
   \<and> (\<exists>qs. tile_positions 20 5 1 None False = Inr (Positions qs) \<and> 6 \<in> set qs)
   \<and> (10::int) = 20 div 2"
proof -
  have ps: "protect_start_of 20 0 = Inr 10"
    using protect_start_exact [of 20 0] by simp
  have e: "tile_positions 20 5 1 (Some 0) False
       = Inr (Positions [0, 1, 2, 3, 4, 5, 10, 11, 12, 13, 14, 15])"
    by (simp add: tile_positions_Some [OF ps] py_range_def range_up.simps)
  have h: "(1::int) \<le> 1" "(1::int) < 5" by simp_all
  have b: "(10::int) - 5 + 1 \<le> 6" "(6::int) < 10" by simp_all
  from tile_empty_center_excludes [OF h ps b, of False] e ps
  show ?thesis by simp
qed

subsection \<open>Claims about the other helpers\<close>

text \<open>
  C6: the task registry builder fails, with the assertion's error, exactly when the
  set of names is smaller than the list of names, that is, when a name occurs twice;
  otherwise it returns the table with no column whose row index is the given list,
  unchanged and in the same order.
\<close>

theorem create_task_data_unique:
  "((create_task_data task_names :: py_error + 'c data_frame) = Inl AssertionError
      \<longleftrightarrow> card (set task_names) < length task_names)
   \<and> (card (set task_names) < length task_names \<longleftrightarrow> \<not> distinct task_names)
   \<and> (distinct task_names \<longrightarrow>
        (create_task_data task_names :: py_error + 'c data_frame)
          = Inr \<lparr>df_index = task_names, df_columns = []\<rparr>)"
proof -
  have le: "card (set task_names) \<le> length task_names" by (rule card_length)
  have d: "distinct task_names \<longleftrightarrow> card (set task_names) = length task_names"
    by (auto simp: distinct_card dest: card_distinct)
  from le d show ?thesis
    by (auto simp: create_task_data_def)
qed

theorem create_task_data_unique_witness:
  "(create_task_data [''a'', ''b'', ''a''] :: py_error + unit data_frame) = Inl AssertionError
   \<and> \<not> distinct [''a'', ''b'', ''a'']
   \<and> distinct [''a'', ''b'', ''c'']
   \<and> (create_task_data [''a'', ''b'', ''c''] :: py_error + unit data_frame)
        = Inr \<lparr>df_index = [''a'', ''b'', ''c''], df_columns = []\<rparr>"
  using create_task_data_unique [of "[''a'', ''b'', ''a'']", where 'c = unit]
        create_task_data_unique [of "[''a'', ''b'', ''c'']", where 'c = unit]
  by simp

text \<open>
  C7: the chromosome-name expander maps \<open>autosomes\<close> to the 22 names \<open>chr1\<close> to
  \<open>chr22\<close> in numeric order without padding, \<open>autosomesX\<close> to these followed by
  \<open>chrX\<close>, \<open>autosomesXY\<close> to these followed by \<open>chrX\<close> and \<open>chrY\<close>, and returns
  every other argument, a string or a list, unchanged.
\<close>

theorem get_chromosomes_shortcuts:
  "get_chromosomes (Str ''autosomes'')
     = StrList [''chr1'', ''chr2'', ''chr3'', ''chr4'', ''chr5'', ''chr6'', ''chr7'', ''chr8'',
                ''chr9'', ''chr10'', ''chr11'', ''chr12'', ''chr13'', ''chr14'', ''chr15'',
                ''chr16'', ''chr17'', ''chr18'', ''chr19'', ''chr20'', ''chr21'', ''chr22'']
   \<and> get_chromosomes (Str ''autosomesX'')
     = StrList [''chr1'', ''chr2'', ''chr3'', ''chr4'', ''chr5'', ''chr6'', ''chr7'', ''chr8'',
                ''chr9'', ''chr10'', ''chr11'', ''chr12'', ''chr13'', ''chr14'', ''chr15'',
                ''chr16'', ''chr17'', ''chr18'', ''chr19'', ''chr20'', ''chr21'', ''chr22'',
                ''chrX'']
   \<and> get_chromosomes (Str ''autosomesXY'')
     = StrList [''chr1'', ''chr2'', ''chr3'', ''chr4'', ''chr5'', ''chr6'', ''chr7'', ''chr8'',
                ''chr9'', ''chr10'', ''chr11'', ''chr12'', ''chr13'', ''chr14'', ''chr15'',
                ''chr16'', ''chr17'', ''chr18'', ''chr19'', ''chr20'', ''chr21'', ''chr22'',
                ''chrX'', ''chrY'']
   \<and> (c \<noteq> Str ''autosomes'' \<and> c \<noteq> Str ''autosomesX'' \<and> c \<noteq> Str ''autosomesXY''
        \<longrightarrow> get_chromosomes c = c)"
proof (intro conjI impI)
  show "get_chromosomes (Str ''autosomes'')
     = StrList [''chr1'', ''chr2'', ''chr3'', ''chr4'', ''chr5'', ''chr6'', ''chr7'', ''chr8'',
                ''chr9'', ''chr10'', ''chr11'', ''chr12'', ''chr13'', ''chr14'', ''chr15'',
                ''chr16'', ''chr17'', ''chr18'', ''chr19'', ''chr20'', ''chr21'', ''chr22'']"
    by code_simp
  show "get_chromosomes (Str ''autosomesX'')
     = StrList [''chr1'', ''chr2'', ''chr3'', ''chr4'', ''chr5'', ''chr6'', ''chr7'', ''chr8'',
                ''chr9'', ''chr10'', ''chr11'', ''chr12'', ''chr13'', ''chr14'', ''chr15'',
                ''chr16'', ''chr17'', ''chr18'', ''chr19'', ''chr20'', ''chr21'', ''chr22'',
                ''chrX'']"
    by code_simp
  show "get_chromosomes (Str ''autosomesXY'')
     = StrList [''chr1'', ''chr2'', ''chr3'', ''chr4'', ''chr5'', ''chr6'', ''chr7'', ''chr8'',
                ''chr9'', ''chr10'', ''chr11'', ''chr12'', ''chr13'', ''chr14'', ''chr15'',
                ''chr16'', ''chr17'', ''chr18'', ''chr19'', ''chr20'', ''chr21'', ''chr22'',
                ''chrX'', ''chrY'']"
    by code_simp
next
  assume "c \<noteq> Str ''autosomes'' \<and> c \<noteq> Str ''autosomesX'' \<and> c \<noteq> Str ''autosomesXY''"
  then show "get_chromosomes c = c"
    by (cases c) (simp_all add: get_chromosomes_def chrom_shortcuts_def)
qed

theorem get_chromosomes_shortcuts_witness:
  "get_chromosomes (StrList [''chr3'', ''chr7'']) = StrList [''chr3'', ''chr7'']
   \<and> get_chromosomes (Str ''chrM'') = Str ''chrM''"
  using get_chromosomes_shortcuts [of "StrList [''chr3'', ''chr7'']"]
        get_chromosomes_shortcuts [of "Str ''chrM''"]
  by simp

lemma check_multiclass_result:
  "check_multiclass is_string_dtype is_categorical_dtype df
     = Inr (\<exists>col. df_columns df = [col] \<and> (is_string_dtype col \<or> is_categorical_dtype col))"
proof (cases "df_columns df")
  case Nil
  then show ?thesis by (simp add: check_multiclass_def shape1_def)
next
  case (Cons c cs)
  then show ?thesis
    by (cases cs) (simp_all add: check_multiclass_def shape1_def iloc_col_def)
qed

text \<open>
  C8: the label validator never raises and returns true exactly when the table has
  one single column and that column passes the string test or the categorical test;
  so it is true on a single string column, false on a table of two columns and false
  on a single column that passes neither test, such as a numeric one.
\<close>

theorem check_multiclass_iff:
  "check_multiclass is_string_dtype is_categorical_dtype df
     = Inr (\<exists>col. df_columns df = [col] \<and> (is_string_dtype col \<or> is_categorical_dtype col))
   \<and> (\<forall>col. df_columns df = [col] \<and> is_string_dtype col \<longrightarrow>
         check_multiclass is_string_dtype is_categorical_dtype df = Inr True)
   \<and> (\<forall>c1 c2. df_columns df = [c1, c2] \<longrightarrow>
         check_multiclass is_string_dtype is_categorical_dtype df = Inr False)
   \<and> (\<forall>col. df_columns df = [col] \<and> \<not> is_string_dtype col \<and> \<not> is_categorical_dtype col \<longrightarrow>
         check_multiclass is_string_dtype is_categorical_dtype df = Inr False)"
  by (simp add: check_multiclass_result)


theorem check_multiclass_iff_witness:
  "check_multiclass (\<lambda>d. d = ''object'') (\<lambda>d. d = ''category'')
       \<lparr>df_index = [''r1'', ''r2''], df_columns = [''object'']\<rparr> = Inr True
   \<and> check_multiclass (\<lambda>d. d = ''object'') (\<lambda>d. d = ''category'')
       \<lparr>df_index = [''r1'', ''r2''], df_columns = [''object'', ''object'']\<rparr> = Inr False
   \<and> check_multiclass (\<lambda>d. d = ''object'') (\<lambda>d. d = ''category'')
       \<lparr>df_index = [''r1'', ''r2''], df_columns = [''int64'']\<rparr> = Inr False"
proof -
  have "df_columns \<lparr>df_index = [''r1'', ''r2''], df_columns = [''object'']\<rparr> = [''object'']
        \<and> ''object'' = ''object''" by simp
  with check_multiclass_iff [of "\<lambda>d. d = ''object''" "\<lambda>d. d = ''category''"
          "\<lparr>df_index = [''r1'', ''r2''], df_columns = [''object'']\<rparr>"]
  have a: "check_multiclass (\<lambda>d. d = ''object'') (\<lambda>d. d = ''category'')
       \<lparr>df_index = [''r1'', ''r2''], df_columns = [''object'']\<rparr> = Inr True"
    by blast
  have "df_columns \<lparr>df_index = [''r1'', ''r2''], df_columns = [''object'', ''object'']\<rparr>
          = [''object'', ''object'']" by simp
  with check_multiclass_iff [of "\<lambda>d. d = ''object''" "\<lambda>d. d = ''category''"
          "\<lparr>df_index = [''r1'', ''r2''], df_columns = [''object'', ''object'']\<rparr>"]
  have b: "check_multiclass (\<lambda>d. d = ''object'') (\<lambda>d. d = ''category'')
       \<lparr>df_index = [''r1'', ''r2''], df_columns = [''object'', ''object'']\<rparr> = Inr False"
    by blast
  have "df_columns \<lparr>df_index = [''r1'', ''r2''], df_columns = [''int64'']\<rparr> = [''int64'']
        \<and> ''int64'' \<noteq> ''object'' \<and> ''int64'' \<noteq> ''category''" by simp
  with check_multiclass_iff [of "\<lambda>d. d = ''object''" "\<lambda>d. d = ''category''"
          "\<lparr>df_index = [''r1'', ''r2''], df_columns = [''int64'']\<rparr>"]
  have c: "check_multiclass (\<lambda>d. d = ''object'') (\<lambda>d. d = ''category'')
       \<lparr>df_index = [''r1'', ''r2''], df_columns = [''int64'']\<rparr> = Inr False"
    by blast
  show ?thesis by (intro conjI) (rule a, rule b, rule c)
qed

end
